theory Spec2Isabelle
  imports Complex_Main "HOL-Library.Log_Nat"
begin

section \<open>JavaScript numbers\<close>

text \<open>
  A JavaScript Number is an IEEE 754 binary64 value. The voice interface only computes
  with finite, non-negative numbers, so a number is modelled by a significand and a
  binary exponent: \<open>Double m e\<close> stands for \<open>m * 2 ^ e\<close>. A value is a binary64 number
  when it has such a form with \<open>m < 2 ^ 53\<close> and \<open>- 1074 \<le> e\<close> (the bound \<open>- 1074\<close>
  covers the subnormal numbers); overflow to \<open>Infinity\<close> is out of reach here, every
  result being below 128.
\<close>

datatype double = Double (mant: nat) (expo: int)

definition dval :: "double \<Rightarrow> real" where
  "dval d = real (mant d) * 2 powi (expo d)"

text \<open>
  Dropping the \<open>k\<close> low bits of a significand, rounding to nearest, ties to even
  (the only rounding mode of JavaScript arithmetic).
\<close>

definition round_half_even :: "nat \<Rightarrow> nat \<Rightarrow> nat" where
  "round_half_even M k =
     (let q = M div 2 ^ k; r = M mod 2 ^ k; h = 2 ^ (k - 1)
      in if h < r \<or> (r = h \<and> odd q) then q + 1 else q)"

text \<open>
  The binary64 number nearest to the exact value \<open>M * 2 ^ e\<close>: the significand keeps
  53 bits, and the exponent of the last place does not go below \<open>- 1074\<close>. (A significand
  rounded up to \<open>2 ^ 53\<close> is left as it is: \<open>2 ^ 53 * 2 ^ e\<close> is the binary64 number
  \<open>2 ^ 52 * 2 ^ (e + 1)\<close>, and every operation below reads a number by its value.)
\<close>

definition round_double :: "nat \<Rightarrow> int \<Rightarrow> double" where
  "round_double M e =
     (let k = max (bitlen (int M) - 53) (- 1074 - e) in
      if k \<le> 0 then Double M e
      else Double (round_half_even M (nat k)) (e + k))"

text \<open>\<open>a * b\<close> and \<open>a + b\<close>: the exact result, rounded once.\<close>

definition js_mul :: "double \<Rightarrow> double \<Rightarrow> double" where
  "js_mul a b = round_double (mant a * mant b) (expo a + expo b)"

definition js_add :: "double \<Rightarrow> double \<Rightarrow> double" where
  "js_add a b =
     (let e = min (expo a) (expo b)
      in round_double (mant a * 2 ^ nat (expo a - e) + mant b * 2 ^ nat (expo b - e)) e)"

text \<open>\<open>Math.floor\<close>, as the integer it denotes.\<close>

definition Math_floor :: "double \<Rightarrow> int" where
  "Math_floor d =
     (if 0 \<le> expo d then int (mant d) * 2 ^ nat (expo d)
      else int (mant d) div 2 ^ nat (- expo d))"

text \<open>An integer literal of the source (\<open>20\<close>, \<open>80\<close>) or an array length.\<close>

definition js_number :: "nat \<Rightarrow> double" where
  "js_number n = Double n 0"

text \<open>
  What \<open>Math.random()\<close> may return: a binary64 number \<open>r\<close> with \<open>0 \<le> r < 1\<close>
  (ECMAScript, Math.random). Every such number is \<open>m * 2 ^ e\<close> with \<open>e < 0\<close> and
  \<open>m < 2 ^ (- e)\<close>. The draws are arguments of the model: one per call of
  \<open>Math.random()\<close>, in the order of the calls.
\<close>

definition is_random :: "double \<Rightarrow> bool" where
  "is_random d \<longleftrightarrow>
     mant d < 2 ^ 53 \<and> - 1074 \<le> expo d \<and> expo d < 0 \<and> mant d < 2 ^ nat (- expo d)"

text \<open>
  \<open>xs[i]\<close> for an array and an integral number: \<open>undefined\<close> (here \<open>None\<close>) outside
  the array, never an exception. In a template literal \<open>undefined\<close> reads "undefined".
\<close>

definition js_index :: "'a list \<Rightarrow> int \<Rightarrow> 'a option" where
  "js_index xs i = (if 0 \<le> i \<and> i < int (length xs) then Some (xs ! nat i) else None)"

definition js_string :: "string option \<Rightarrow> string" where
  "js_string v = (case v of None \<Rightarrow> ''undefined'' | Some s \<Rightarrow> s)"

fun decimal :: "nat \<Rightarrow> string" where
  "decimal n =
     (if n < 10 then [''0123456789'' ! n]
      else decimal (n div 10) @ [''0123456789'' ! (n mod 10)])"

definition js_int_string :: "int \<Rightarrow> string" where
  "js_int_string i = (if i < 0 then CHR ''-'' # decimal (nat (- i)) else decimal (nat i))"

section \<open>The voice interface\<close>

text \<open>
  The state a method of \<open>SEEKERVoiceInterface\<close> runs in: the fields of the object
  (\<open>isRecording\<close>, \<open>audioChunks\<close>), the page (\<open>innerHTML\<close> of the element with a given
  id, as the page reads it; \<open>None\<close> where \<open>document.getElementById\<close> returns \<open>null\<close>)
  and the console. The record is extensible: everything else is the \<open>more\<close> part.
\<close>

datatype console_entry = ConsoleLog "string list" | ConsoleError "string list"

record browser =
  isRecording :: bool
  audioChunks :: "string list"
  innerHTML :: "string \<rightharpoonup> string"
  console :: "console_entry list"

text \<open>How a block of statements completes: normally, or by a thrown exception.\<close>

datatype 'a completion = Normal (state_of: 'a) | Thrown string (state_of: 'a)

definition console_log :: "string list \<Rightarrow> 'a browser_scheme \<Rightarrow> 'a browser_scheme" where
  "console_log args s = s\<lparr>console := console s @ [ConsoleLog args]\<rparr>"

definition console_error :: "string list \<Rightarrow> 'a browser_scheme \<Rightarrow> 'a browser_scheme" where
  "console_error args s = s\<lparr>console := console s @ [ConsoleError args]\<rparr>"

text \<open>\<open>try { ... } catch (error) { console.error(msg, error); }\<close>\<close>

definition try_catch ::
    "'a browser_scheme completion \<Rightarrow> string \<Rightarrow> 'a browser_scheme completion" where
  "try_catch c msg =
     (case c of
        Normal s \<Rightarrow> Normal s
      | Thrown error s \<Rightarrow> Normal (console_error [msg, error] s))"

text \<open>The emoji that open the console messages, as the UTF-8 bytes of the source file.\<close>

definition emoji_label :: string where
  "emoji_label = [CHR 0xF0, CHR 0x9F, CHR 0x8F, CHR 0xB7, CHR 0xEF, CHR 0xB8, CHR 0x8F]"

definition emoji_check :: string where
  "emoji_check = [CHR 0xE2, CHR 0x9C, CHR 0x85]"

definition emoji_cross :: string where
  "emoji_cross = [CHR 0xE2, CHR 0x9D, CHR 0x8C]"

definition emoji_globe :: string where
  "emoji_globe = [CHR 0xF0, CHR 0x9F, CHR 0x8C, CHR 0x8D]"

definition classifications :: "string list" where
  "classifications =
     [''Business Meeting'', ''Technical Discussion'', ''Casual Conversation'',
      ''Presentation'', ''Interview'']"

text \<open>
  \<open>classifications[Math.floor(Math.random() * classifications.length)]\<close>, for the draw
  \<open>r\<close> of that call of \<open>Math.random()\<close>.
\<close>

definition randomClassification :: "double \<Rightarrow> string option" where
  "randomClassification r =
     js_index classifications (Math_floor (js_mul r (js_number (length classifications))))"

text \<open>\<open>Math.floor(Math.random() * 20 + 80)\<close>, the confidence shown, for the draw \<open>r\<close>.\<close>

definition confidence_percent :: "double \<Rightarrow> int" where
  "confidence_percent r = Math_floor (js_add (js_mul r (js_number 20)) (js_number 80))"

text \<open>The template literal assigned to \<open>classificationResults.innerHTML\<close>.\<close>

definition classification_html :: "string option \<Rightarrow> int \<Rightarrow> string" where
  \<open>classification_html label conf =
     CHR 0x0A # replicate 20 CHR '' '' @ ''<div class="alert alert-success">'' @
     CHR 0x0A # replicate 24 CHR '' '' @ ''<strong>Classification:</strong> '' @
       js_string label @ ''<br>'' @
     CHR 0x0A # replicate 24 CHR '' '' @ ''<strong>Confidence:</strong> '' @
       js_int_string conf @ ''%'' @
     CHR 0x0A # replicate 20 CHR '' '' @ ''</div>'' @
     CHR 0x0A # replicate 16 CHR '' ''\<close>

text \<open>
  The assignment \<open>element.innerHTML = html\<close> is an operation of the browser, not of
  the source: it parses \<open>html\<close> and replaces the children of the element, which also
  changes what the element's ancestors read as their \<open>innerHTML\<close> and removes the
  elements that were inside it; in an XML document it throws when \<open>html\<close> is not
  well-formed, and then changes nothing. The setter is therefore a parameter of the
  model: from the id of the element, the assigned string and the page it gives the
  thrown error (\<open>Inl\<close>) or the page after the assignment (\<open>Inr\<close>).
\<close>

type_synonym innerHTML_setter =
  "string \<Rightarrow> string \<Rightarrow> (string \<rightharpoonup> string) \<Rightarrow> string + (string \<rightharpoonup> string)"

text \<open>
  \<open>classifyVoiceInput(text)\<close>, the \<open>try\<close> block. \<open>r1\<close> is the draw that picks the
  label, \<open>r2\<close> the draw of the confidence (made only when the element
  \<open>classificationResults\<close> exists). \<open>console.log\<close>, the array read, \<open>Math.random\<close>,
  \<open>Math.floor\<close> and \<open>getElementById\<close> complete normally; the assignment to
  \<open>innerHTML\<close> may throw, and then the last \<open>console.log\<close> is not reached.
\<close>

definition classifyVoiceInput_try ::
    "innerHTML_setter \<Rightarrow> string \<Rightarrow> double \<Rightarrow> double \<Rightarrow> 'a browser_scheme
      \<Rightarrow> 'a browser_scheme completion" where
  "classifyVoiceInput_try setter text r1 r2 s =
     (let s1 = console_log [emoji_label @ '' Classifying voice input...''] s;
          label = randomClassification r1;
          classified = console_log [emoji_check @ '' Voice input classified:'', js_string label]
      in case innerHTML s1 ''classificationResults'' of
           None \<Rightarrow> Normal (classified s1)
         | Some _ \<Rightarrow>
             (case setter ''classificationResults''
                     (classification_html label (confidence_percent r2)) (innerHTML s1) of
                Inl error \<Rightarrow> Thrown error s1
              | Inr page \<Rightarrow> Normal (classified (s1\<lparr>innerHTML := page\<rparr>))))"

text \<open>\<open>classifyVoiceInput(text)\<close> with its \<open>catch\<close> clause, for a given setter.\<close>

definition classifyVoiceInput_on ::
    "innerHTML_setter \<Rightarrow> string \<Rightarrow> double \<Rightarrow> double \<Rightarrow> 'a browser_scheme
      \<Rightarrow> 'a browser_scheme completion" where
  "classifyVoiceInput_on setter text r1 r2 s =
     try_catch (classifyVoiceInput_try setter text r1 r2 s)
       (emoji_cross @ '' Error classifying voice input:'')"

text \<open>
  The setter of an HTML page whose elements with an id are not nested in one another:
  the assignment does not throw, and the element reads back the string assigned (the
  markup of \<open>classification_html\<close> is serialised as it is written).
\<close>

definition html_setter :: innerHTML_setter where
  "html_setter i html page = Inr (page(i \<mapsto> html))"

text \<open>\<open>classifyVoiceInput(text)\<close> on such a page.\<close>

definition classifyVoiceInput ::
    "string \<Rightarrow> double \<Rightarrow> double \<Rightarrow> 'a browser_scheme \<Rightarrow> 'a browser_scheme completion" where
  "classifyVoiceInput text r1 r2 s = classifyVoiceInput_on html_setter text r1 r2 s"

text \<open>
  The setter of an XML document (a page served as XHTML): the markup of
  \<open>classification_html\<close> has an unclosed \<open>br\<close> element, so the assignment throws.
\<close>

definition xml_setter :: innerHTML_setter where
  "xml_setter i html page = Inl ''SyntaxError''"

text \<open>\<open>translateVoiceInput(text)\<close>; \<open>translatedText\<close> is its local constant.\<close>

definition translatedText :: "string \<Rightarrow> string" where
  "translatedText text = ''[Translated] '' @ text"

definition translateVoiceInput_try ::
    "string \<Rightarrow> 'a browser_scheme \<Rightarrow> 'a browser_scheme completion" where
  "translateVoiceInput_try text s =
     (let s1 = console_log [emoji_globe @ '' Translating voice input...''] s
      in Normal (console_log
           [emoji_check @ '' Voice input translated:'', translatedText text] s1))"

definition translateVoiceInput ::
    "string \<Rightarrow> 'a browser_scheme \<Rightarrow> 'a browser_scheme completion" where
  "translateVoiceInput text s =
     try_catch (translateVoiceInput_try text s)
       (emoji_cross @ '' Error translating voice input:'')"

text \<open>A page that has the element \<open>classificationResults\<close>, empty, and an empty console.\<close>

definition page0 :: browser where
  "page0 = \<lparr>isRecording = True, audioChunks = [],
            innerHTML = [''classificationResults'' \<mapsto> []], console = []\<rparr>"

text \<open>Another page: it shows an older result, has a second element and console history.\<close>

definition page1 :: browser where
  "page1 = \<lparr>isRecording = False, audioChunks = [''chunk''],
            innerHTML = [''classificationResults'' \<mapsto> ''old'', ''voiceProgress'' \<mapsto> []],
            console = [ConsoleLog [''earlier'']]\<rparr>"

section \<open>The routing core: data model\<close>

text \<open>
  Modelled from the spec: the Agent Router and the Adaptive Loop (\<open>agent_router.py\<close>
  and \<open>sair_loop.py\<close> of the repository's README) are not among the sources. The
  records follow the data model of the specification, section 3: identifiers are
  numbers, capability tags are strings, scores and weights are reals. This one is
  Category: identifier, display label, ordered (phrase, weight) pairs, required
  capability tags, current confidence threshold.
\<close>

record Category =
  cat_id :: nat
  cat_label :: string
  phrases :: "(string \<times> real) list"
  required :: "string set"
  threshold :: real

text \<open>
  Modelled from the spec: section 3, ClassificationResult: request identifier,
  per-category raw score, the arg-max category, the overall confidence and the ordered
  secondary categories. The categories are carried as records, so that the router
  reads their required capabilities and thresholds from the result.
\<close>

record ClassificationResult =
  request_id :: nat
  scores :: "(nat \<times> real) list"
  primary :: Category
  confidence :: real
  secondary :: "Category list"

text \<open>
  Modelled from the spec: section 3, Agent: identifier, capability tag set, a learned
  routing weight per category (default 1.0) and the rolling performance metrics.
\<close>

record Agent =
  agent_id :: nat
  capabilities :: "string set"
  routingWeight :: "nat \<Rightarrow> real"
  successRate :: real
  meanSatisfaction :: real
  meanLatency :: real

text \<open>
  Modelled from the spec: section 3, RoutingDecision: request identifier, ordered
  (agent identifier, assignment confidence) pairs, overall routing confidence and the
  escalation flag.
\<close>

record RoutingDecision =
  decision_request_id :: nat
  assignments :: "(nat \<times> real) list"
  routing_confidence :: real
  escalated :: bool

section \<open>The routing core: Agent Router\<close>

text \<open>
  Modelled from the spec: section 4.2, "filter agents whose capability tags are a
  superset of the category's required capabilities".
\<close>

definition capable :: "Category \<Rightarrow> Agent \<Rightarrow> bool" where
  "capable c a \<longleftrightarrow> required c \<subseteq> capabilities a"

text \<open>
  Modelled from the spec: section 4.2, "score each candidate as
  classification.confidence * agent.routingWeight(category) * agent.successRate".
\<close>

definition candidate_score :: "ClassificationResult \<Rightarrow> Category \<Rightarrow> Agent \<Rightarrow> real" where
  "candidate_score cls c a = confidence cls * routingWeight a (cat_id c) * successRate a"

text \<open>
  Modelled from the spec: the candidates of a category, each with the category it is a
  candidate for and its score.
\<close>

definition candidates ::
    "ClassificationResult \<Rightarrow> Agent list \<Rightarrow> Category \<Rightarrow> (Category \<times> Agent \<times> real) list" where
  "candidates cls reg c = map (\<lambda>a. (c, a, candidate_score cls c a)) (filter (capable c) reg)"

text \<open>
  Modelled from the spec: section 4.2, "select candidates above a per-category
  confidence threshold"; a candidate qualifies when its score is above the threshold of
  its category.
\<close>

definition qualifying ::
    "ClassificationResult \<Rightarrow> Agent list \<Rightarrow> Category \<Rightarrow> (Category \<times> Agent \<times> real) list" where
  "qualifying cls reg c = filter (\<lambda>(c', a, sc). threshold c' < sc) (candidates cls reg c)"

text \<open>
  Modelled from the spec: "the primary category's top candidate score", the largest
  score among the candidates; \<open>None\<close> when there is no candidate.
\<close>

fun top_score :: "(Category \<times> Agent \<times> real) list \<Rightarrow> real option" where
  "top_score [] = None"
| "top_score ((c, a, sc) # xs) =
     (case top_score xs of None \<Rightarrow> Some sc | Some t \<Rightarrow> Some (max sc t))"

text \<open>
  Modelled from the spec: section 4.2, the order of the selected candidates: by score,
  highest first, "ties broken by agent identifier ordering".
\<close>

definition ranks_before :: "Category \<times> Agent \<times> real \<Rightarrow> Category \<times> Agent \<times> real \<Rightarrow> bool" where
  "ranks_before x y \<longleftrightarrow>
     snd (snd y) < snd (snd x) \<or>
     (snd (snd x) = snd (snd y) \<and> agent_id (fst (snd x)) \<le> agent_id (fst (snd y)))"

text \<open>
  Modelled from the spec: a candidate put into a ranked list, in front of the first
  candidate it ranks before.
\<close>

fun insert_ranked ::
    "Category \<times> Agent \<times> real \<Rightarrow> (Category \<times> Agent \<times> real) list
      \<Rightarrow> (Category \<times> Agent \<times> real) list" where
  "insert_ranked x [] = [x]"
| "insert_ranked x (y # ys) = (if ranks_before x y then x # y # ys else y # insert_ranked x ys)"

text \<open>
  Modelled from the spec: the candidates in ranking order (an insertion sort).
\<close>

fun rank :: "(Category \<times> Agent \<times> real) list \<Rightarrow> (Category \<times> Agent \<times> real) list" where
  "rank [] = []"
| "rank (x # xs) = insert_ranked x (rank xs)"

text \<open>
  Modelled from the spec: section 4.2, the qualifying candidates of "the primary
  category (and each secondary category carried in the classification result)", ranked,
  "up to a maximum fan-out count".
\<close>

definition selected ::
    "nat \<Rightarrow> ClassificationResult \<Rightarrow> Agent list \<Rightarrow> (Category \<times> Agent \<times> real) list" where
  "selected fanout cls reg =
     take fanout (rank (concat (map (qualifying cls reg) (primary cls # secondary cls))))"

text \<open>
  Modelled from the spec: \<open>route(classification, agentRegistry) -> RoutingDecision\<close>
  for a given maximum fan-out. The decision lists the selected agents with their scores;
  when no agent qualifies the request is escalated (glossary: "Escalation: routing
  outcome where no agent qualifies") and the list is empty. The overall routing
  confidence, which the specification does not define, is taken to be the best
  assignment's score, 0 when there is none.
\<close>

definition route_fanout :: "nat \<Rightarrow> ClassificationResult \<Rightarrow> Agent list \<Rightarrow> RoutingDecision" where
  "route_fanout fanout cls reg =
     (let sel = selected fanout cls reg in
      \<lparr>decision_request_id = request_id cls,
       assignments = map (\<lambda>(c, a, sc). (agent_id a, sc)) sel,
       routing_confidence = (case sel of [] \<Rightarrow> 0 | (c, a, sc) # _ \<Rightarrow> sc),
       escalated = (sel = [])\<rparr>)"

text \<open>Modelled from the spec: \<open>route\<close> with the default maximum fan-out count, 3.\<close>

definition route :: "ClassificationResult \<Rightarrow> Agent list \<Rightarrow> RoutingDecision" where
  "route cls reg = route_fanout 3 cls reg"

section \<open>The routing core: Adaptive Loop\<close>

text \<open>
  Modelled from the spec: section 3, the feedback signals of an OutcomeRecord: "user
  satisfaction score 0-1, correctness flag if known".
\<close>

record Feedback =
  satisfaction :: real
  correct :: "bool option"

text \<open>
  Modelled from the spec: section 3, the per-agent response summary of an
  OutcomeRecord: success or failure, latency, content confidence.
\<close>

record AgentResponse =
  response_agent :: nat
  success :: bool
  latency :: real
  content_confidence :: real

text \<open>
  Modelled from the spec: section 3, OutcomeRecord: request identifier, classification
  result, routing decision, response summaries and feedback; the feedback is optional
  (section 4.4).
\<close>

record OutcomeRecord =
  outcome_request_id :: nat
  classification :: ClassificationResult
  decision :: RoutingDecision
  responses :: "AgentResponse list"
  feedback :: "Feedback option"

text \<open>
  Modelled from the spec: section 3, LearningUpdate, "a batch of (category, phrase,
  weight delta) and (category, agent, weight delta, new threshold) adjustments", as two
  finite maps: a key without an entry is not adjusted.
\<close>

record LearningUpdate =
  phrase_adjust :: "nat \<times> string \<rightharpoonup> real"
  routing_adjust :: "nat \<times> nat \<rightharpoonup> real \<times> real"

text \<open>Modelled from the spec: the no-op LearningUpdate, the empty batch.\<close>

definition no_update :: LearningUpdate where
  "no_update = \<lparr>phrase_adjust = Map.empty, routing_adjust = Map.empty\<rparr>"

text \<open>
  Modelled from the spec: section 3, "Category and Agent weight tables are the only
  mutable global state in the core": the snapshot a cycle reads and replaces.
\<close>

record Tables =
  categories :: "Category list"
  agents :: "Agent list"

text \<open>
  Modelled from the spec: the configured quantities of section 4.3, which the
  specification names and leaves open: the per-cycle bound (e.g. 0.1 for 10%), the
  tolerance margin, the baseline per category, the step of a proposal before it is
  bounded, the damping of the gain, the decay of phrase weights, the cutoff below which
  a classification counts as low-confidence, and the rule that gives a category its new
  threshold.
\<close>

record sair_config =
  cycle_bound :: real
  margin :: real
  baseline :: "nat \<Rightarrow> real"
  step :: real
  damping :: real
  decay :: real
  low_confidence :: real
  threshold_rule :: "OutcomeRecord list \<Rightarrow> nat \<Rightarrow> real"

text \<open>
  Modelled from the spec: what the loop keeps from one cycle to the next (Interpret):
  the gain of each (category, agent) pair, the previous cycle's aggregate satisfaction
  and the pairs the previous cycle adjusted.
\<close>

record sair_memory =
  gain :: "nat \<times> nat \<Rightarrow> real"
  previous :: "real option"
  adjusted :: "(nat \<times> nat) list"

text \<open>
  Modelled from the spec: Search, "aggregate, per category and per agent": a record
  counts for a (category, agent) pair when the category is its primary category and the
  agent is among its assignments.
\<close>

definition observed :: "OutcomeRecord \<Rightarrow> nat \<Rightarrow> nat \<Rightarrow> bool" where
  "observed r c a \<longleftrightarrow>
     cat_id (primary (classification r)) = c \<and> a \<in> fst ` set (assignments (decision r))"

text \<open>
  Modelled from the spec: the satisfaction scores a window holds for a (category,
  agent) pair; a record without feedback contributes none (section 4.4).
\<close>

definition satisfaction_samples :: "OutcomeRecord list \<Rightarrow> nat \<Rightarrow> nat \<Rightarrow> real list" where
  "satisfaction_samples w c a =
     concat (map (\<lambda>r. case feedback r of
                         None \<Rightarrow> []
                       | Some f \<Rightarrow> if observed r c a then [satisfaction f] else []) w)"

text \<open>
  Modelled from the spec: the mean of a list of scores; there is none for the empty
  list.
\<close>

definition mean_of :: "real list \<Rightarrow> real option" where
  "mean_of xs = (if xs = [] then None else Some (sum_list xs / real (length xs)))"

text \<open>
  Modelled from the spec: Search, the "mean satisfaction" of a (category, agent) pair
  over the window.
\<close>

definition mean_satisfaction :: "OutcomeRecord list \<Rightarrow> nat \<Rightarrow> nat \<Rightarrow> real option" where
  "mean_satisfaction w c a = mean_of (satisfaction_samples w c a)"

text \<open>Modelled from the spec: the aggregate satisfaction of a window (Interpret).\<close>

definition aggregate_satisfaction :: "OutcomeRecord list \<Rightarrow> real option" where
  "aggregate_satisfaction w =
     mean_of (concat (map (\<lambda>r. case feedback r of None \<Rightarrow> [] | Some f \<Rightarrow> [satisfaction f]) w))"

text \<open>
  Modelled from the spec: Act, "where an agent's mean satisfaction for a category is
  below a moving baseline by more than a tolerance margin, propose a routing-weight
  decrease for that (category, agent) pair; where above baseline by a margin, propose an
  increase". The size of a proposal is the configured step times the gain of the pair,
  relative to the weight.
\<close>

definition proposal :: "sair_config \<Rightarrow> real \<Rightarrow> nat \<Rightarrow> real \<Rightarrow> real \<Rightarrow> real option" where
  "proposal cfg g c w m =
     (if m < baseline cfg c - margin cfg then Some (- (step cfg * g * \<bar>w\<bar>))
      else if baseline cfg c + margin cfg < m then Some (step cfg * g * \<bar>w\<bar>)
      else None)"

text \<open>
  Modelled from the spec: Act, "weight changes are bounded per cycle (e.g., +-10%)":
  a proposed change of the weight \<open>w\<close> is cut to the bound, relative to \<open>w\<close>.
\<close>

definition bound_delta :: "sair_config \<Rightarrow> real \<Rightarrow> real \<Rightarrow> real" where
  "bound_delta cfg w d = max (- (cycle_bound cfg * \<bar>w\<bar>)) (min (cycle_bound cfg * \<bar>w\<bar>) d)"

text \<open>
  Modelled from the spec: Act as a whole, the bounded weight change of each
  (category, agent) pair of the registry that the window gives a mean for.
\<close>

definition act ::
    "sair_config \<Rightarrow> sair_memory \<Rightarrow> OutcomeRecord list \<Rightarrow> Agent list \<Rightarrow> nat \<times> nat \<rightharpoonup> real" where
  "act cfg mem w ags = (\<lambda>(c, i).
     case find (\<lambda>a. agent_id a = i) ags of
       None \<Rightarrow> None
     | Some a \<Rightarrow>
         (case mean_satisfaction w c i of
            None \<Rightarrow> None
          | Some m \<Rightarrow>
              map_option (bound_delta cfg (routingWeight a c))
                (proposal cfg (gain mem (c, i)) c (routingWeight a c) m)))"

text \<open>
  Modelled from the spec: Refine, "low-confidence-but-wrong classifications": a record
  is one when its feedback says it was wrong and its confidence is below the cutoff.
\<close>

definition low_confidence_wrong :: "sair_config \<Rightarrow> OutcomeRecord \<Rightarrow> bool" where
  "low_confidence_wrong cfg r \<longleftrightarrow>
     (case feedback r of None \<Rightarrow> False | Some f \<Rightarrow> correct f = Some False) \<and>
     confidence (classification r) < low_confidence cfg"

text \<open>
  Modelled from the spec: Refine, "decay weights for phrases associated with
  low-confidence-but-wrong classifications": the phrases associated with such a record
  are those of its primary category, and each loses the configured fraction of its
  weight.
\<close>

definition refine_phrases :: "sair_config \<Rightarrow> OutcomeRecord list \<Rightarrow> nat \<times> string \<rightharpoonup> real" where
  "refine_phrases cfg w = (\<lambda>(c, p).
     case find (\<lambda>r. low_confidence_wrong cfg r \<and> cat_id (primary (classification r)) = c \<and>
                     p \<in> fst ` set (phrases (primary (classification r)))) w of
       None \<Rightarrow> None
     | Some r \<Rightarrow> map_option (\<lambda>wt. - (decay cfg * wt))
                   (map_of (phrases (primary (classification r))) p))"

text \<open>
  Modelled from the spec: the LearningUpdate of a cycle: the phrase adjustments of
  Refine, and for every pair adjusted by Act its weight change together with the new
  threshold of the category (Refine, "updated per-category confidence thresholds").
\<close>

definition learning_update ::
    "sair_config \<Rightarrow> sair_memory \<Rightarrow> OutcomeRecord list \<Rightarrow> Tables \<Rightarrow> LearningUpdate" where
  "learning_update cfg mem w st =
     \<lparr>phrase_adjust = refine_phrases cfg w,
      routing_adjust = (\<lambda>(c, i).
        map_option (\<lambda>d. (d, threshold_rule cfg w c)) (act cfg mem w (agents st) (c, i)))\<rparr>"

text \<open>
  Modelled from the spec: applying a LearningUpdate to an agent: the weight delta of a
  (category, agent) pair is added to the agent's routing weight for the category.
\<close>

definition apply_agent :: "LearningUpdate \<Rightarrow> Agent \<Rightarrow> Agent" where
  "apply_agent upd a =
     a\<lparr>routingWeight := (\<lambda>c. case routing_adjust upd (c, agent_id a) of
                                None \<Rightarrow> routingWeight a c
                              | Some (d, t) \<Rightarrow> routingWeight a c + d)\<rparr>"

text \<open>
  Modelled from the spec: applying a LearningUpdate to a category: a phrase delta is
  added to the weight of its phrase, and the category takes the new threshold of the
  first of its adjusted pairs.
\<close>

definition apply_category :: "LearningUpdate \<Rightarrow> Agent list \<Rightarrow> Category \<Rightarrow> Category" where
  "apply_category upd ags cat =
     cat\<lparr>phrases := map (\<lambda>(p, wt). (p, case phrase_adjust upd (cat_id cat, p) of
                                           None \<Rightarrow> wt
                                         | Some d \<Rightarrow> wt + d)) (phrases cat),
         threshold := (case List.map_filter (\<lambda>a. routing_adjust upd (cat_id cat, agent_id a)) ags of
                         [] \<Rightarrow> threshold cat
                       | (d, t) # _ \<Rightarrow> t)\<rparr>"

text \<open>
  Modelled from the spec: applying a LearningUpdate: both tables are replaced as a
  whole (section 3, "whole-record copy-on-write updates").
\<close>

definition apply_update :: "LearningUpdate \<Rightarrow> Tables \<Rightarrow> Tables" where
  "apply_update upd st =
     \<lparr>categories = map (apply_category upd (agents st)) (categories st),
      agents = map (apply_agent upd) (agents st)\<rparr>"

text \<open>
  Modelled from the spec: Interpret, "compare this cycle's aggregate satisfaction ... to
  the previous cycle's, to judge whether the prior cycle's adjustments helped; if they
  did not, dampen future step size for the affected (category, agent) pairs".
\<close>

definition interpret_phase ::
    "sair_config \<Rightarrow> sair_memory \<Rightarrow> OutcomeRecord list \<Rightarrow> (nat \<times> nat) list \<Rightarrow> sair_memory" where
  "interpret_phase cfg mem w now_adjusted =
     (let current = aggregate_satisfaction w;
          helped = (case (previous mem, current) of
                      (Some p, Some q) \<Rightarrow> p \<le> q
                    | _ \<Rightarrow> True)
      in \<lparr>gain = (\<lambda>k. if \<not> helped \<and> k \<in> set (adjusted mem)
                       then damping cfg * gain mem k else gain mem k),
          previous = (case current of None \<Rightarrow> previous mem | Some q \<Rightarrow> Some q),
          adjusted = now_adjusted\<rparr>)"

text \<open>
  Modelled from the spec: section 7 (d), the fault of a cycle that meets a corrupted
  record: "the cycle is skipped" and nothing is applied. The fault names the request.
\<close>

datatype cycle_fault = CorruptedRecord nat

text \<open>
  Modelled from the spec: a record is taken to be corrupted when its satisfaction
  score is outside 0-1 (section 3, "user satisfaction score 0-1").
\<close>

definition well_formed_record :: "OutcomeRecord \<Rightarrow> bool" where
  "well_formed_record r \<longleftrightarrow>
     (case feedback r of None \<Rightarrow> True | Some f \<Rightarrow> 0 \<le> satisfaction f \<and> satisfaction f \<le> 1)"

text \<open>
  Modelled from the spec: one Adaptive Loop cycle over a window: the fault, or the
  LearningUpdate with the tables after it is applied and the memory for the next cycle.
\<close>

definition sair_cycle ::
    "sair_config \<Rightarrow> sair_memory \<Rightarrow> OutcomeRecord list \<Rightarrow> Tables
      \<Rightarrow> cycle_fault + LearningUpdate \<times> Tables \<times> sair_memory" where
  "sair_cycle cfg mem w st =
     (case find (\<lambda>r. \<not> well_formed_record r) w of
        Some r \<Rightarrow> Inl (CorruptedRecord (outcome_request_id r))
      | None \<Rightarrow>
          (let upd = learning_update cfg mem w st;
               now_adjusted = concat (map (\<lambda>cat. concat (map (\<lambda>a.
                    case routing_adjust upd (cat_id cat, agent_id a) of
                      None \<Rightarrow> []
                    | Some _ \<Rightarrow> [(cat_id cat, agent_id a)]) (agents st))) (categories st))
           in Inr (upd, apply_update upd st, interpret_phase cfg mem w now_adjusted)))"

text \<open>Modelled from the spec: the tables in force after a cycle; a failed cycle changes nothing.\<close>

definition tables_after ::
    "sair_config \<Rightarrow> sair_memory \<Rightarrow> OutcomeRecord list \<Rightarrow> Tables \<Rightarrow> Tables" where
  "tables_after cfg mem w st =
     (case sair_cycle cfg mem w st of Inl _ \<Rightarrow> st | Inr (upd, st', mem') \<Rightarrow> st')"

section \<open>Fixtures\<close>

text \<open>
  Modelled from the spec: data with the shapes of section 3 to run the router and the
  loop on. A category that requires the tag "search".
\<close>

definition product_search :: Category where
  "product_search = \<lparr>cat_id = 1, cat_label = ''product_search'',
     phrases = [(''price'', 2), (''suppliers'', 3)], required = {''search''}, threshold = 1 / 2\<rparr>"

text \<open>
  Modelled from the spec: a category that requires the tag "translate".
\<close>

definition translation :: Category where
  "translation = \<lparr>cat_id = 2, cat_label = ''translation'',
     phrases = [(''translate'', 4)], required = {''translate''}, threshold = 1 / 2\<rparr>"

text \<open>
  Modelled from the spec: an agent capable of "search", at the default routing weight.
\<close>

definition agent_A :: Agent where
  "agent_A = \<lparr>agent_id = 1, capabilities = {''search'', ''negotiate''},
     routingWeight = (\<lambda>c. 1), successRate = 9 / 10, meanSatisfaction = 9 / 10, meanLatency = 1\<rparr>"

text \<open>
  Modelled from the spec: an agent capable of "translate", at the default routing
  weight.
\<close>

definition agent_B :: Agent where
  "agent_B = \<lparr>agent_id = 2, capabilities = {''translate''},
     routingWeight = (\<lambda>c. 1), successRate = 4 / 5, meanSatisfaction = 3 / 10, meanLatency = 2\<rparr>"

text \<open>
  Modelled from the spec: a classification result with confidence 0.8 and no secondary
  category.
\<close>

definition confident_result :: ClassificationResult where
  "confident_result = \<lparr>request_id = 7, scores = [(1, 5), (2, 0)], primary = product_search,
     confidence = 4 / 5, secondary = []\<rparr>"

text \<open>
  Modelled from the spec: a classification result with confidence 0.5 and one
  secondary category.
\<close>

definition doubtful_result :: ClassificationResult where
  "doubtful_result = \<lparr>request_id = 8, scores = [(1, 2), (2, 2)], primary = product_search,
     confidence = 1 / 2, secondary = [translation]\<rparr>"

text \<open>
  Modelled from the spec: the snapshot of both tables.
\<close>

definition tables0 :: Tables where
  "tables0 = \<lparr>categories = [product_search, translation], agents = [agent_A, agent_B]\<rparr>"

text \<open>
  Modelled from the spec: a configuration with the per-cycle bound of 10%.
\<close>

definition config0 :: sair_config where
  "config0 = \<lparr>cycle_bound = 1 / 10, margin = 1 / 10, baseline = (\<lambda>c. 1 / 2), step = 1 / 2,
     damping = 1 / 2, decay = 1 / 10, low_confidence = 1 / 2, threshold_rule = (\<lambda>w c. 1 / 2)\<rparr>"

text \<open>
  Modelled from the spec: the memory of a loop that has not run yet: every gain is 1.
\<close>

definition memory0 :: sair_memory where
  "memory0 = \<lparr>gain = (\<lambda>k. 1), previous = None, adjusted = []\<rparr>"

text \<open>
  Modelled from the spec: a window of one record: the request of the confident result
  went to agent 1 and got a satisfaction of 0.3.
\<close>

definition window0 :: "OutcomeRecord list" where
  "window0 = [\<lparr>outcome_request_id = 7, classification = confident_result,
     decision = \<lparr>decision_request_id = 7, assignments = [(1, 18 / 25)],
                 routing_confidence = 18 / 25, escalated = False\<rparr>,
     responses = [\<lparr>response_agent = 1, success = True, latency = 1, content_confidence = 1 / 2\<rparr>],
     feedback = Some \<lparr>satisfaction = 3 / 10, correct = None\<rparr>\<rparr>]"

section \<open>Translation\<close>

text \<open>
  C10. For every input text, the translation produced by \<open>translateVoiceInput\<close> is
  exactly the string "[Translated] " followed by the unchanged input text: the method
  completes normally, and all it does is write two console messages, the second one
  carrying that string.
\<close>

theorem translateVoiceInput_prefix:
  "translatedText text = ''[Translated] '' @ text \<and>
   translateVoiceInput text s =
     Normal (s\<lparr>console := console s @
       [ConsoleLog [emoji_globe @ '' Translating voice input...''],
        ConsoleLog [emoji_check @ '' Voice input translated:'', ''[Translated] '' @ text]]\<rparr>)"
  by (simp add: translateVoiceInput_def translateVoiceInput_try_def try_catch_def
      console_log_def translatedText_def)

section \<open>Rounding\<close>

text \<open>
  A rounded result stays on the same side of every binary64 number as the exact one,
  and a result below \<open>2 ^ n\<close> is off by at most \<open>2 ^ (n - 54)\<close>, half the spacing of
  the binary64 numbers there.
\<close>

lemma round_half_even_le:
  assumes "M \<le> c * 2 ^ k"
  shows "round_half_even M k \<le> c"
proof -
  have q: "M div 2 ^ k \<le> c"
    using assms by (metis div_le_mono nonzero_mult_div_cancel_right power_not_zero zero_neq_numeral)
  show ?thesis
  proof (cases "M div 2 ^ k < c")
    case True
    then show ?thesis by (simp add: round_half_even_def Let_def)
  next
    case False
    with q have eq: "M div 2 ^ k = c" by simp
    have "M mod 2 ^ k = 0"
      using assms eq by (metis add_diff_cancel_left' div_mult_mod_eq diff_is_0_eq')
    then show ?thesis using eq by (simp add: round_half_even_def Let_def)
  qed
qed

lemma round_half_even_ge:
  assumes "c * 2 ^ k \<le> M"
  shows "c \<le> round_half_even M k"
proof -
  have "c \<le> M div 2 ^ k"
    using assms by (simp add: less_eq_div_iff_mult_less_eq)
  then show ?thesis by (simp add: round_half_even_def Let_def)
qed

lemma powi_add_nat: "(2::real) powi (x + int n) = 2 powi x * 2 ^ n"
  by (simp add: power_int_add)

lemma powi_mono2: "x \<le> y \<Longrightarrow> (2::real) powi x \<le> 2 powi y"
  by (simp add: power_int_increasing)


lemma bitlen_large:
  assumes "0 < k" "k = bitlen (int M) - 53"
  shows "2 ^ (nat k + 52) \<le> M"
proof -
  have pos: "0 < int M" using assms by (smt (verit) bitlen_eq_zero_iff)
  have "nat (bitlen (int M) - 1) = nat k + 52" using assms by simp
  with bitlen_bounds [OF pos] have "(2::int) ^ (nat k + 52) \<le> int M" by simp
  then show ?thesis by (metis of_nat_le_iff of_nat_numeral of_nat_power)
qed

lemma scale_le:
  assumes "real M * 2 powi e \<le> real b * 2 powi f" "0 < k" "e + k \<le> f"
  shows "M \<le> (b * 2 ^ nat (f - (e + k))) * 2 ^ nat k"
proof -
  have f: "f = e + int (nat (f - (e + k)) + nat k)" using assms by simp
  have "real b * 2 powi f = real b * 2 ^ (nat (f - (e + k)) + nat k) * 2 powi e"
    by (subst f, subst powi_add_nat) simp
  with assms(1) have "real M * 2 powi e \<le> real (b * 2 ^ (nat (f - (e + k)) + nat k)) * 2 powi e"
    by simp
  then have "real M \<le> real (b * 2 ^ (nat (f - (e + k)) + nat k))"
    by (simp only: mult_le_cancel_right) (simp)
  then show ?thesis by (simp only: of_nat_le_iff power_add mult.assoc)
qed


lemma scale_ge:
  assumes "real b * 2 powi f \<le> real M * 2 powi e" "0 < k" "e + k \<le> f"
  shows "(b * 2 ^ nat (f - (e + k))) * 2 ^ nat k \<le> M"
proof -
  have f: "f = e + int (nat (f - (e + k)) + nat k)" using assms by simp
  have "real b * 2 powi f = real b * 2 ^ (nat (f - (e + k)) + nat k) * 2 powi e"
    by (subst f, subst powi_add_nat) simp
  with assms(1) have "real (b * 2 ^ (nat (f - (e + k)) + nat k)) * 2 powi e \<le> real M * 2 powi e"
    by simp
  then have "real (b * 2 ^ (nat (f - (e + k)) + nat k)) \<le> real M"
    by (simp only: mult_le_cancel_right) (simp)
  then show ?thesis by (simp only: of_nat_le_iff power_add mult.assoc)
qed

lemma unscale:
  assumes "0 < k" "e + k \<le> f"
  shows "real (b * 2 ^ nat (f - (e + k))) * 2 powi (e + k) = real b * 2 powi f"
proof -
  have f: "f = (e + k) + int (nat (f - (e + k)))" using assms by simp
  show ?thesis by (subst (2) f, subst powi_add_nat) simp
qed

lemma below_binade:
  assumes "b < 2 ^ 53" "f < s"
  shows "real b * 2 powi f < 2 powi (s + 52)"
proof -
  have "real b < 2 ^ 53" using assms(1) by (metis of_nat_less_iff of_nat_numeral of_nat_power)
  then have "real b * 2 powi f < 2 ^ 53 * 2 powi f" by simp
  also have "\<dots> = 2 powi (f + 53)" by (simp add: power_int_add)
  also have "\<dots> \<le> 2 powi (s + 52)" using assms(2) by (intro powi_mono2) simp
  finally show ?thesis .
qed

lemma round_double_le:
  assumes le: "real M * 2 powi e \<le> real b * 2 powi f" and b: "b < 2 ^ 53" and f: "- 1074 \<le> f"
  shows "dval (round_double M e) \<le> real b * 2 powi f"
proof -
  define k where "k = max (bitlen (int M) - 53) (- 1074 - e)"
  show ?thesis
  proof (cases "k \<le> 0")
    case True
    then show ?thesis using le by (simp add: round_double_def k_def [symmetric] dval_def)
  next
    case False
    then have k: "0 < k" by simp
    have rd: "dval (round_double M e) = real (round_half_even M (nat k)) * 2 powi (e + k)"
      using False by (simp add: round_double_def k_def [symmetric] dval_def)
    show ?thesis
    proof (cases "e + k \<le> f")
      case True
      have "round_half_even M (nat k) \<le> b * 2 ^ nat (f - (e + k))"
        by (rule round_half_even_le) (rule scale_le [OF le k True])
      then have "real (round_half_even M (nat k)) * 2 powi (e + k)
                 \<le> real (b * 2 ^ nat (f - (e + k))) * 2 powi (e + k)"
        by (intro mult_right_mono) (simp_all only: of_nat_le_iff, simp)
      then show ?thesis by (simp only: rd unscale [OF k True])
    next
      case False
      then have fs: "f < e + k" by simp
      with f have "k = bitlen (int M) - 53" by (simp add: k_def max_def split: if_splits)
      from bitlen_large [OF k this] have "(2::real) ^ (nat k + 52) \<le> real M"
        by (metis of_nat_le_iff of_nat_numeral of_nat_power)
      then have "2 ^ (nat k + 52) * 2 powi e \<le> real M * 2 powi e" by simp
      moreover have "(2::real) ^ (nat k + 52) * 2 powi e = 2 powi (e + k + 52)"
      proof -
        have "e + k + 52 = e + int (nat k + 52)" using k by simp
        then show ?thesis by (simp only: powi_add_nat mult.commute)
      qed
      ultimately have "2 powi (e + k + 52) \<le> real M * 2 powi e" by simp
      with below_binade [OF b fs] le show ?thesis by simp
    qed
  qed
qed

lemma round_double_ge:
  assumes le: "real b * 2 powi f \<le> real M * 2 powi e" and b: "b < 2 ^ 53" and f: "- 1074 \<le> f"
  shows "real b * 2 powi f \<le> dval (round_double M e)"
proof -
  define k where "k = max (bitlen (int M) - 53) (- 1074 - e)"
  show ?thesis
  proof (cases "k \<le> 0")
    case True
    then show ?thesis using le by (simp add: round_double_def k_def [symmetric] dval_def)
  next
    case False
    then have k: "0 < k" by simp
    have rd: "dval (round_double M e) = real (round_half_even M (nat k)) * 2 powi (e + k)"
      using False by (simp add: round_double_def k_def [symmetric] dval_def)
    show ?thesis
    proof (cases "e + k \<le> f")
      case True
      have "b * 2 ^ nat (f - (e + k)) \<le> round_half_even M (nat k)"
        by (rule round_half_even_ge) (rule scale_ge [OF le k True])
      then have "real (b * 2 ^ nat (f - (e + k))) * 2 powi (e + k)
                 \<le> real (round_half_even M (nat k)) * 2 powi (e + k)"
        by (intro mult_right_mono) (simp_all only: of_nat_le_iff, simp)
      then show ?thesis by (simp only: rd unscale [OF k True])
    next
      case False
      then have fs: "f < e + k" by simp
      with f have "k = bitlen (int M) - 53" by (simp add: k_def max_def split: if_splits)
      from bitlen_large [OF k this] have "2 ^ 52 * 2 ^ nat k \<le> M"
        by (simp add: power_add mult.commute)
      then have "2 ^ 52 \<le> round_half_even M (nat k)" by (rule round_half_even_ge)
      then have "(2::real) ^ 52 \<le> real (round_half_even M (nat k))"
        by (metis of_nat_le_iff of_nat_numeral of_nat_power)
      then have "2 ^ 52 * 2 powi (e + k) \<le> real (round_half_even M (nat k)) * 2 powi (e + k)"
        by (intro mult_right_mono) simp_all
      moreover have "(2::real) ^ 52 * 2 powi (e + k) = 2 powi (e + k + 52)"
        by (simp add: power_int_add)
      ultimately have "2 powi (e + k + 52) \<le> dval (round_double M e)" by (simp only: rd)
      with below_binade [OF b fs] show ?thesis by simp
    qed
  qed
qed

lemma dval_mul_exact:
  "real (mant a * mant b) * 2 powi (expo a + expo b) = dval a * dval b"
  by (simp add: dval_def power_int_add)

lemma dval_add_exact:
  "real (mant a * 2 ^ nat (expo a - min (expo a) (expo b)) +
         mant b * 2 ^ nat (expo b - min (expo a) (expo b))) * 2 powi (min (expo a) (expo b))
   = dval a + dval b"
proof -
  define e where "e = min (expo a) (expo b)"
  have a: "expo a = e + int (nat (expo a - e))" and b: "expo b = e + int (nat (expo b - e))"
    by (simp_all add: e_def)
  have "dval a = real (mant a) * 2 ^ nat (expo a - e) * 2 powi e"
    unfolding dval_def by (subst a, subst powi_add_nat) simp
  moreover have "dval b = real (mant b) * 2 ^ nat (expo b - e) * 2 powi e"
    unfolding dval_def by (subst b, subst powi_add_nat) simp
  ultimately show ?thesis by (simp add: e_def [symmetric] algebra_simps)
qed

lemma Math_floor_dval: "Math_floor d = \<lfloor>dval d\<rfloor>"
proof (cases "0 \<le> expo d")
  case True
  then have "dval d = of_int (int (mant d) * 2 ^ nat (expo d))"
    by (simp add: dval_def power_int_def)
  then show ?thesis using True by (simp only: Math_floor_def if_True floor_of_int)
next
  case False
  then have "dval d = real_of_int (int (mant d)) / real_of_int (2 ^ nat (- expo d))"
    by (simp add: dval_def power_int_def field_simps)
  then show ?thesis using False by (simp only: Math_floor_def if_False floor_divide_of_int_eq)
qed

lemma is_random_below_one:
  assumes "is_random r"
  shows "dval r \<le> 1 - 1 / 2 ^ 53"
proof -
  define n where "n = nat (- expo r)"
  have e: "expo r = - int n" and n0: "0 < n" using assms by (simp_all add: is_random_def n_def)
  have m: "mant r < 2 ^ n" "mant r < 2 ^ 53" using assms by (simp_all add: is_random_def n_def)
  have dv: "dval r = real (mant r) / 2 ^ n"
    by (simp add: dval_def e power_int_minus field_simps)
  show ?thesis
  proof (cases "n \<le> 53")
    case True
    have "real (mant r) + 1 \<le> 2 ^ n" using m(1)
      by (metis Suc_leI of_nat_Suc of_nat_le_iff of_nat_numeral of_nat_power add.commute)
    then have "dval r \<le> 1 - 1 / 2 ^ n" by (simp add: dv field_simps)
    moreover have "(1::real) / 2 ^ 53 \<le> 1 / 2 ^ n"
    proof -
      have p: "(2::real) ^ n \<le> 2 ^ 53" using True by (intro power_increasing) simp_all
      show ?thesis by (rule divide_left_mono [OF p]) simp_all
    qed
    ultimately show ?thesis by linarith
  next
    case False
    then have "(2::real) ^ 54 \<le> 2 ^ n" by (intro power_increasing) simp_all
    moreover have "real (mant r) < 2 ^ 53" using m(2)
      by (metis of_nat_less_iff of_nat_numeral of_nat_power)
    ultimately have "dval r \<le> 2 ^ 53 / 2 ^ 54"
      unfolding dv by (intro frac_le) simp_all
    then show ?thesis by simp
  qed
qed

lemma dval_nonneg: "0 \<le> dval d"
  by (simp add: dval_def)

lemma dval_js_number: "dval (js_number n) = real n"
  by (simp add: dval_def js_number_def)

lemma js_mul_le:
  assumes "dval a * dval b \<le> real c * 2 powi f" "c < 2 ^ 53" "- 1074 \<le> f"
  shows "dval (js_mul a b) \<le> real c * 2 powi f"
  unfolding js_mul_def
  by (rule round_double_le) (simp_all only: dval_mul_exact assms)

lemma js_add_le:
  assumes "dval a + dval b \<le> real c * 2 powi f" "c < 2 ^ 53" "- 1074 \<le> f"
  shows "dval (js_add a b) \<le> real c * 2 powi f"
  unfolding js_add_def Let_def
  by (rule round_double_le) (simp_all only: dval_add_exact assms)

lemma js_add_ge:
  assumes "real c * 2 powi f \<le> dval a + dval b" "c < 2 ^ 53" "- 1074 \<le> f"
  shows "real c * 2 powi f \<le> dval (js_add a b)"
  unfolding js_add_def Let_def
  by (rule round_double_ge) (simp_all only: dval_add_exact assms)

lemma round_half_even_error:
  assumes "0 < k"
  shows "round_half_even M k * 2 ^ k \<le> M + 2 ^ (k - 1)"
proof -
  have two: "(2::nat) ^ k = 2 * 2 ^ (k - 1)"
    using assms by (metis power_eq_if not_gr_zero)
  have M: "M = M div 2 ^ k * 2 ^ k + M mod 2 ^ k" by (rule div_mult_mod_eq [symmetric])
  show ?thesis
  proof (cases "2 ^ (k - 1) < M mod 2 ^ k \<or> M mod 2 ^ k = 2 ^ (k - 1) \<and> odd (M div 2 ^ k)")
    case True
    then have r: "2 ^ (k - 1) \<le> M mod 2 ^ k" by auto
    have "round_half_even M k * 2 ^ k = M div 2 ^ k * 2 ^ k + 2 ^ k"
      using True by (simp add: round_half_even_def Let_def)
    also have "\<dots> = M div 2 ^ k * 2 ^ k + 2 ^ (k - 1) + 2 ^ (k - 1)"
      by (subst (2) two) simp
    also have "\<dots> \<le> M div 2 ^ k * 2 ^ k + M mod 2 ^ k + 2 ^ (k - 1)"
      using r by simp
    also have "\<dots> = M + 2 ^ (k - 1)" by (simp only: div_mult_mod_eq)
    finally show ?thesis .
  next
    case False
    then have "round_half_even M k * 2 ^ k = M div 2 ^ k * 2 ^ k"
      by (simp add: round_half_even_def Let_def)
    also have "\<dots> \<le> M + 2 ^ (k - 1)" by (metis M le_add1 trans_le_add1)
    finally show ?thesis .
  qed
qed

lemma round_double_half_ulp:
  assumes x: "real M * 2 powi e < 2 powi n" and n: "- 1021 \<le> n"
  shows "dval (round_double M e) \<le> real M * 2 powi e + 2 powi (n - 54)"
proof -
  define k where "k = max (bitlen (int M) - 53) (- 1074 - e)"
  show ?thesis
  proof (cases "k \<le> 0")
    case True
    then show ?thesis by (simp add: round_double_def k_def [symmetric] dval_def)
  next
    case False
    then have k: "0 < k" by simp
    have rd: "dval (round_double M e) = real (round_half_even M (nat k)) * 2 powi (e + k)"
      using False by (simp add: round_double_def k_def [symmetric] dval_def)
    have s: "e + k \<le> n - 53"
    proof (cases "k = bitlen (int M) - 53")
      case True
      from bitlen_large [OF k True] have "(2::real) ^ (nat k + 52) \<le> real M"
        by (metis of_nat_le_iff of_nat_numeral of_nat_power)
      then have "2 ^ (nat k + 52) * 2 powi e \<le> real M * 2 powi e" by simp
      moreover have "(2::real) ^ (nat k + 52) * 2 powi e = 2 powi (e + k + 52)"
      proof -
        have "e + k + 52 = e + int (nat k + 52)" using k by simp
        then show ?thesis by (simp only: powi_add_nat mult.commute)
      qed
      ultimately have lt: "(2::real) powi (e + k + 52) < 2 powi n" using x by simp
      have "e + k + 52 < n"
      proof (rule ccontr)
        assume "\<not> e + k + 52 < n"
        then have "(2::real) powi n \<le> 2 powi (e + k + 52)" by (intro powi_mono2) simp
        with lt show False by simp
      qed
      then show ?thesis by simp
    next
      case False
      then have "k = - 1074 - e" by (simp add: k_def max_def split: if_splits)
      then show ?thesis using n by simp
    qed
    have "real (round_half_even M (nat k) * 2 ^ nat k) \<le> real (M + 2 ^ (nat k - 1))"
      using round_half_even_error [of "nat k" M] k by (simp only: of_nat_le_iff)
    then have "real (round_half_even M (nat k)) * 2 ^ nat k \<le> real M + 2 ^ (nat k - 1)"
      by simp
    then have "real (round_half_even M (nat k)) * 2 ^ nat k * 2 powi e
               \<le> (real M + 2 ^ (nat k - 1)) * 2 powi e"
      by (intro mult_right_mono) simp_all
    moreover have "real (round_half_even M (nat k)) * 2 ^ nat k * 2 powi e
                   = dval (round_double M e)"
    proof -
      have "e + k = e + int (nat k)" using k by simp
      then show ?thesis by (simp only: rd powi_add_nat) simp
    qed
    moreover have "(2::real) ^ (nat k - 1) * 2 powi e = 2 powi (e + k - 1)"
    proof -
      have "e + k - 1 = e + int (nat k - 1)" using k by simp
      then show ?thesis by (simp only: powi_add_nat mult.commute)
    qed
    ultimately have "dval (round_double M e) \<le> real M * 2 powi e + 2 powi (e + k - 1)"
      by (simp add: algebra_simps)
    moreover have "(2::real) powi (e + k - 1) \<le> 2 powi (n - 54)"
      using s by (intro powi_mono2) simp
    ultimately show ?thesis by linarith
  qed
qed

lemma round_double_error:
  assumes x: "real M * 2 powi e < 8"
  shows "dval (round_double M e) \<le> real M * 2 powi e + 2 powi (- 51)"
proof -
  have "real M * 2 powi e < 2 powi 3" using x by simp
  from round_double_half_ulp [OF this] show ?thesis by simp
qed

lemma label_index_bounds:
  assumes "is_random r"
  shows "0 \<le> Math_floor (js_mul r (js_number 5)) \<and> Math_floor (js_mul r (js_number 5)) < 5"
proof -
  let ?x = "real (mant r * mant (js_number 5)) * 2 powi (expo r + expo (js_number 5))"
  have x: "?x \<le> 5 - 5 / 2 ^ 53"
    using is_random_below_one [OF assms] by (simp only: dval_mul_exact dval_js_number)
  then have "?x < 8" by simp
  then have "dval (js_mul r (js_number 5)) \<le> ?x + 2 powi (- 51)"
    unfolding js_mul_def by (rule round_double_error)
  also have "\<dots> \<le> 5 - 5 / 2 ^ 53 + 2 powi (- 51)" using x by simp
  also have "\<dots> < 5" by (simp add: power_int_minus)
  finally have "\<lfloor>dval (js_mul r (js_number 5))\<rfloor> < 5" by (simp add: floor_less_iff)
  moreover have "0 \<le> \<lfloor>dval (js_mul r (js_number 5))\<rfloor>" by (simp add: dval_nonneg)
  ultimately show ?thesis by (simp only: Math_floor_dval)
qed

lemma confidence_percent_bounds:
  assumes "is_random r"
  shows "80 \<le> confidence_percent r \<and> confidence_percent r \<le> 100"
proof -
  let ?y = "js_mul r (js_number 20)"
  let ?z = "js_add ?y (js_number 80)"
  have "dval r * dval (js_number 20) \<le> real 20 * 2 powi 0"
    using is_random_below_one [OF assms] by (simp add: dval_js_number)
  then have y: "dval ?y \<le> real 20 * 2 powi 0"
    by (rule js_mul_le) simp_all
  have "dval ?y + dval (js_number 80) \<le> real 100 * 2 powi 0"
    using y by (simp add: dval_js_number)
  then have "dval ?z \<le> real 100 * 2 powi 0"
    by (rule js_add_le) simp_all
  then have hi: "\<lfloor>dval ?z\<rfloor> \<le> 100" by (simp add: floor_le_iff)
  have "real 80 * 2 powi 0 \<le> dval ?y + dval (js_number 80)"
    using dval_nonneg [of ?y] by (simp add: dval_js_number)
  then have "real 80 * 2 powi 0 \<le> dval ?z"
    by (rule js_add_ge) simp_all
  then have lo: "80 \<le> \<lfloor>dval ?z\<rfloor>" by (simp add: le_floor_iff)
  from lo hi show ?thesis by (simp only: confidence_percent_def Math_floor_dval)
qed

lemma confidence_percent_below_100:
  assumes "dval r \<le> 1 - 5 / 2 ^ 53"
  shows "confidence_percent r \<le> 99"
proof -
  let ?y = "js_mul r (js_number 20)"
  let ?z = "js_add ?y (js_number 80)"
  let ?s = "real (mant ?y * 2 ^ nat (expo ?y - min (expo ?y) (expo (js_number 80))) +
         mant (js_number 80) * 2 ^ nat (expo (js_number 80) - min (expo ?y) (expo (js_number 80))))
       * 2 powi (min (expo ?y) (expo (js_number 80)))"
  have "dval r * dval (js_number 20) \<le> 20 - 100 / 2 ^ 53"
    using assms by (simp add: dval_js_number)
  also have "\<dots> \<le> real 5629499534213117 * 2 powi (- 48)"
    by (simp add: power_int_minus)
  finally have y: "dval ?y \<le> real 5629499534213117 * 2 powi (- 48)"
    by (rule js_mul_le) simp_all
  have s: "?s = dval ?y + dval (js_number 80)" by (rule dval_add_exact)
  have "dval ?y + dval (js_number 80) \<le> 100 - 3 / 2 ^ 48"
    using y by (simp add: dval_js_number power_int_minus)
  then have le: "?s \<le> 100 - 3 / 2 ^ 48" by (simp only: s)
  then have "?s < 2 powi 7" by simp
  then have "dval ?z \<le> ?s + 2 powi (7 - 54)"
    unfolding js_add_def Let_def by (rule round_double_half_ulp) simp
  also have "\<dots> \<le> 100 - 3 / 2 ^ 48 + 2 powi (7 - 54)" using le by simp
  also have "\<dots> < 100" by (simp add: power_int_minus)
  finally have "\<lfloor>dval ?z\<rfloor> < 100" by (simp add: floor_less_iff)
  then show ?thesis by (simp only: confidence_percent_def Math_floor_dval)
qed

lemma randomClassification_label:
  assumes "is_random r"
  shows "\<exists>label. randomClassification r = Some label \<and> label \<in> set classifications"
proof -
  have len: "length classifications = 5" by (simp add: classifications_def)
  let ?i = "Math_floor (js_mul r (js_number 5))"
  from label_index_bounds [OF assms] have i: "0 \<le> ?i" "?i < 5" by simp_all
  then have "randomClassification r = Some (classifications ! nat ?i)"
    by (simp add: randomClassification_def js_index_def len)
  moreover have "classifications ! nat ?i \<in> set classifications"
    by (rule nth_mem) (use i in \<open>simp add: len\<close>)
  ultimately show ?thesis by blast
qed

lemma classifyVoiceInput_state:
  "classifyVoiceInput text r1 r2 s =
     Normal (s\<lparr>innerHTML :=
                  (case innerHTML s ''classificationResults'' of
                     None \<Rightarrow> innerHTML s
                   | Some _ \<Rightarrow> (innerHTML s)(''classificationResults'' \<mapsto>
                       classification_html (randomClassification r1) (confidence_percent r2))),
               console := console s @
                  [ConsoleLog [emoji_label @ '' Classifying voice input...''],
                   ConsoleLog [emoji_check @ '' Voice input classified:'',
                               js_string (randomClassification r1)]]\<rparr>)"
  by (simp add: classifyVoiceInput_def classifyVoiceInput_on_def classifyVoiceInput_try_def
      html_setter_def try_catch_def console_log_def Let_def split: option.split)

lemma bitlen_eqI:
  assumes "0 < n" "2 ^ (n - 1) \<le> x" "x < 2 ^ n"
  shows "bitlen x = int n"
proof -
  have "bitlen x \<le> int n" using assms(3) by (simp add: bitlen_le_iff_power)
  moreover have "int n \<le> bitlen x" using assms(1,2) by (simp add: bitlen_ge_iff_power)
  ultimately show ?thesis by simp
qed

lemma is_random_examples:
  "is_random (Double 0 (- 1))" "is_random (Double 2 (- 2))" "is_random (Double 2 (- 3))"
  "is_random (Double 4503599627370495 (- 52))"
  by (simp_all add: is_random_def)

lemma randomClassification_examples:
  "randomClassification (Double 0 (- 1)) = Some ''Business Meeting''"
  "randomClassification (Double 2 (- 2)) = Some ''Casual Conversation''"
  by code_simp+

lemma confidence_percent_examples:
  "confidence_percent (Double 0 (- 1)) = 80"
  "confidence_percent (Double 2 (- 3)) = 85"
  by code_simp+

text \<open>
  The draw \<open>1 - 2 ^ - 52\<close>, step by step: \<open>r * 20\<close> is \<open>20 - 20 * 2 ^ - 52\<close> exactly and
  rounds to \<open>20 - 2 ^ - 48\<close>; adding 80 gives \<open>100 - 2 ^ - 48\<close> exactly, a quarter of
  the spacing \<open>2 ^ - 46\<close> of the binary64 numbers below 100, and rounds to 100.
\<close>

lemma near_one_times_20:
  "js_mul (Double 4503599627370495 (- 52)) (js_number 20) = Double 5629499534213119 (- 48)"
proof -
  have "bitlen 90071992547409900 = int 57" by (rule bitlen_eqI) simp_all
  then show ?thesis
    by (simp add: js_mul_def js_number_def round_double_def round_half_even_def)
qed

lemma near_one_plus_80:
  "js_add (Double 5629499534213119 (- 48)) (js_number 80) = Double 7036874417766400 (- 46)"
proof -
  have "bitlen 28147497671065599 = int 55" by (rule bitlen_eqI) simp_all
  then show ?thesis
    by (simp add: js_add_def js_number_def round_double_def round_half_even_def)
qed

lemma confidence_percent_near_one:
  "confidence_percent (Double 4503599627370495 (- 52)) = 100"
  by (simp add: confidence_percent_def near_one_times_20 near_one_plus_80 Math_floor_def)

lemma quarter_below: "dval (Double 2 (- 3)) \<le> 1 - 5 / 2 ^ 53"
  by (simp add: dval_def power_int_minus)

lemma page0_element: "innerHTML page0 ''classificationResults'' = Some []"
  by (simp add: page0_def)

section \<open>Classification\<close>

text \<open>
  C9, as the code has it. For every input text and every pair of draws of
  \<open>Math.random()\<close>, the label is one of the five fixed strings and the confidence is an
  integer between 80 and 100 inclusive, at most 99 unless the draw of the confidence is
  above \<open>1 - 5 * 2 ^ - 53\<close>, that is, one of the four largest binary64 numbers below 1;
  neither depends on the input text, and the call does nothing else than write them to
  the element \<open>classificationResults\<close> (when the page has it) and to the console.
\<close>

theorem classifyVoiceInput_label_confidence:
  assumes "is_random r1" and "is_random r2"
  shows "\<exists>label conf. label \<in> set classifications \<and> 80 \<le> conf \<and> conf \<le> 100 \<and>
           (dval r2 \<le> 1 - 5 / 2 ^ 53 \<longrightarrow> conf \<le> 99) \<and>
           (\<forall>text (s :: 'a browser_scheme).
              classifyVoiceInput text r1 r2 s =
                Normal (s\<lparr>innerHTML :=
                  (case innerHTML s ''classificationResults'' of
                     None \<Rightarrow> innerHTML s
                   | Some _ \<Rightarrow> (innerHTML s)(''classificationResults'' \<mapsto>
                       classification_html (Some label) conf)),
                  console := console s @
                    [ConsoleLog [emoji_label @ '' Classifying voice input...''],
                     ConsoleLog [emoji_check @ '' Voice input classified:'', label]]\<rparr>))"
proof -
  from randomClassification_label [OF assms(1)] obtain label
    where l: "randomClassification r1 = Some label" "label \<in> set classifications" by blast
  from confidence_percent_bounds [OF assms(2)]
  have c: "80 \<le> confidence_percent r2" "confidence_percent r2 \<le> 100" by simp_all
  have n: "dval r2 \<le> 1 - 5 / 2 ^ 53 \<longrightarrow> confidence_percent r2 \<le> 99"
    using confidence_percent_below_100 [of r2] by blast
  have "\<forall>text (s :: 'a browser_scheme).
          classifyVoiceInput text r1 r2 s =
            Normal (s\<lparr>innerHTML :=
                  (case innerHTML s ''classificationResults'' of
                     None \<Rightarrow> innerHTML s
                   | Some _ \<Rightarrow> (innerHTML s)(''classificationResults'' \<mapsto>
                       classification_html (Some label) (confidence_percent r2))),
                  console := console s @
                    [ConsoleLog [emoji_label @ '' Classifying voice input...''],
                     ConsoleLog [emoji_check @ '' Voice input classified:'', label]]\<rparr>)"
    by (simp add: classifyVoiceInput_state l js_string_def split: option.split)
  with l(2) c n show ?thesis by blast
qed

theorem classifyVoiceInput_label_confidence_witness:
  "is_random (Double 2 (- 2)) \<and> is_random (Double 2 (- 3)) \<and>
   dval (Double 2 (- 3)) \<le> 1 - 5 / 2 ^ 53 \<and>
   (\<exists>label conf. label \<in> set classifications \<and> 80 \<le> conf \<and> conf \<le> 99 \<and>
      (\<forall>text (s :: browser).
         classifyVoiceInput text (Double 2 (- 2)) (Double 2 (- 3)) s =
           Normal (s\<lparr>innerHTML :=
                  (case innerHTML s ''classificationResults'' of
                     None \<Rightarrow> innerHTML s
                   | Some _ \<Rightarrow> (innerHTML s)(''classificationResults'' \<mapsto>
                       classification_html (Some label) conf)),
                  console := console s @
                    [ConsoleLog [emoji_label @ '' Classifying voice input...''],
                     ConsoleLog [emoji_check @ '' Voice input classified:'', label]]\<rparr>)))"
proof -
  from classifyVoiceInput_label_confidence [OF is_random_examples(2) is_random_examples(3)]
  obtain label conf where "label \<in> set classifications" "80 \<le> conf"
    "dval (Double 2 (- 3)) \<le> 1 - 5 / 2 ^ 53 \<longrightarrow> conf \<le> 99"
    "\<forall>text (s :: browser).
       classifyVoiceInput text (Double 2 (- 2)) (Double 2 (- 3)) s =
         Normal (s\<lparr>innerHTML :=
                  (case innerHTML s ''classificationResults'' of
                     None \<Rightarrow> innerHTML s
                   | Some _ \<Rightarrow> (innerHTML s)(''classificationResults'' \<mapsto>
                       classification_html (Some label) conf)),
                  console := console s @
                    [ConsoleLog [emoji_label @ '' Classifying voice input...''],
                     ConsoleLog [emoji_check @ '' Voice input classified:'', label]]\<rparr>)"
    by blast
  with quarter_below is_random_examples(2) is_random_examples(3) show ?thesis by blast
qed

text \<open>
  C9, as the claim states it, fails: the draw \<open>1 - 2 ^ - 52\<close> (0.9999999999999998) is a
  result of \<open>Math.random()\<close>; \<open>r * 20\<close> rounds to \<open>20 - 2 ^ - 48\<close> and adding 80 rounds
  to exactly 100, so the page shows a confidence of 100.
\<close>

theorem classifyVoiceInput_confidence_100:
  "is_random (Double 0 (- 1)) \<and> is_random (Double 4503599627370495 (- 52)) \<and>
   confidence_percent (Double 4503599627370495 (- 52)) = 100 \<and>
   innerHTML (state_of (classifyVoiceInput ''hello'' (Double 0 (- 1))
       (Double 4503599627370495 (- 52)) page0)) ''classificationResults''
     = Some (classification_html (Some ''Business Meeting'') 100)"
  by (simp add: is_random_examples classifyVoiceInput_state page0_element
      randomClassification_examples confidence_percent_near_one)

text \<open>
  C1, as the code has it. There is no Category Model: the result of a call is fixed by
  the two draws of \<open>Math.random()\<close>. Two calls with the same text and the same draws
  show the same label and the same confidence, whatever the page and the console held
  before (the page having the element \<open>classificationResults\<close> both times).
\<close>

theorem classifyVoiceInput_same_draws:
  assumes "innerHTML s ''classificationResults'' \<noteq> None"
    and "innerHTML s' ''classificationResults'' \<noteq> None"
  shows "innerHTML (state_of (classifyVoiceInput text r1 r2 s)) ''classificationResults''
           = innerHTML (state_of (classifyVoiceInput text r1 r2 s')) ''classificationResults'' \<and>
         last (console (state_of (classifyVoiceInput text r1 r2 s)))
           = last (console (state_of (classifyVoiceInput text r1 r2 s')))"
  using assms by (auto simp add: classifyVoiceInput_state)

theorem classifyVoiceInput_same_draws_witness:
  "innerHTML page0 ''classificationResults'' \<noteq> None \<and>
   innerHTML page1 ''classificationResults'' \<noteq> None \<and>
   innerHTML (state_of (classifyVoiceInput ''hello'' (Double 2 (- 2)) (Double 2 (- 3)) page0))
       ''classificationResults''
     = innerHTML (state_of (classifyVoiceInput ''hello'' (Double 2 (- 2)) (Double 2 (- 3)) page1))
         ''classificationResults'' \<and>
   last (console (state_of (classifyVoiceInput ''hello'' (Double 2 (- 2)) (Double 2 (- 3)) page0)))
     = last (console (state_of (classifyVoiceInput ''hello'' (Double 2 (- 2)) (Double 2 (- 3)) page1)))"
proof -
  have a: "innerHTML page0 ''classificationResults'' \<noteq> None" by (simp add: page0_def)
  have b: "innerHTML page1 ''classificationResults'' \<noteq> None" by (simp add: page1_def)
  from classifyVoiceInput_same_draws [OF a b] a b show ?thesis by blast
qed

text \<open>
  C1, as the claim states it, fails: two calls with the same text on the same page,
  the first with the draws 0 and 0, the second with the draws 0.5 and 0.25, show
  "Business Meeting" at 80 and "Casual Conversation" at 85.
\<close>

theorem classifyVoiceInput_not_deterministic:
  "is_random (Double 0 (- 1)) \<and> is_random (Double 2 (- 2)) \<and> is_random (Double 2 (- 3)) \<and>
   innerHTML (state_of (classifyVoiceInput ''hello'' (Double 0 (- 1)) (Double 0 (- 1)) page0))
       ''classificationResults''
     = Some (classification_html (Some ''Business Meeting'') 80) \<and>
   innerHTML (state_of (classifyVoiceInput ''hello'' (Double 2 (- 2)) (Double 2 (- 3)) page0))
       ''classificationResults''
     = Some (classification_html (Some ''Casual Conversation'') 85) \<and>
   classifyVoiceInput ''hello'' (Double 0 (- 1)) (Double 0 (- 1)) page0
     \<noteq> classifyVoiceInput ''hello'' (Double 2 (- 2)) (Double 2 (- 3)) page0"
  by (simp add: is_random_examples classifyVoiceInput_state page0_element
      randomClassification_examples confidence_percent_examples js_string_def page0_def)

text \<open>
  C2, as the code has it. No phrase is configured and no phrase is looked for: for
  every input text, the empty and the whitespace-only ones included, the label shown
  is one of the five fixed labels, never "unclassified", and the confidence shown is at
  least 80, never 0; the text has no part in what the call writes to the element
  \<open>classificationResults\<close> and to the console.
\<close>

theorem classifyVoiceInput_no_unclassified:
  assumes "is_random r1" and "is_random r2"
  shows "\<exists>label conf. label \<in> set classifications \<and> label \<noteq> ''unclassified'' \<and>
           80 \<le> conf \<and> conf \<noteq> 0 \<and>
           (\<forall>text (s :: 'a browser_scheme).
              classifyVoiceInput text r1 r2 s =
                Normal (s\<lparr>innerHTML :=
                  (case innerHTML s ''classificationResults'' of
                     None \<Rightarrow> innerHTML s
                   | Some _ \<Rightarrow> (innerHTML s)(''classificationResults'' \<mapsto>
                       classification_html (Some label) conf)),
                  console := console s @
                    [ConsoleLog [emoji_label @ '' Classifying voice input...''],
                     ConsoleLog [emoji_check @ '' Voice input classified:'', label]]\<rparr>))"
proof -
  from randomClassification_label [OF assms(1)] obtain label
    where l: "randomClassification r1 = Some label" "label \<in> set classifications" by blast
  have "''unclassified'' \<notin> set classifications" by (simp add: classifications_def)
  with l(2) have u: "label \<noteq> ''unclassified''" by auto
  from confidence_percent_bounds [OF assms(2)]
  have c: "80 \<le> confidence_percent r2" "confidence_percent r2 \<noteq> 0" by simp_all
  have "\<forall>text (s :: 'a browser_scheme).
          classifyVoiceInput text r1 r2 s =
            Normal (s\<lparr>innerHTML :=
                  (case innerHTML s ''classificationResults'' of
                     None \<Rightarrow> innerHTML s
                   | Some _ \<Rightarrow> (innerHTML s)(''classificationResults'' \<mapsto>
                       classification_html (Some label) (confidence_percent r2))),
                  console := console s @
                    [ConsoleLog [emoji_label @ '' Classifying voice input...''],
                     ConsoleLog [emoji_check @ '' Voice input classified:'', label]]\<rparr>)"
    by (simp add: classifyVoiceInput_state l js_string_def split: option.split)
  with l(2) u c show ?thesis by blast
qed

theorem classifyVoiceInput_no_unclassified_witness:
  "is_random (Double 0 (- 1)) \<and> is_random (Double 2 (- 3)) \<and>
   (\<exists>label conf. label \<in> set classifications \<and> label \<noteq> ''unclassified'' \<and>
      80 \<le> conf \<and> conf \<noteq> 0 \<and>
      classifyVoiceInput [] (Double 0 (- 1)) (Double 2 (- 3)) page0 =
        Normal (page0\<lparr>innerHTML :=
                  (case innerHTML page0 ''classificationResults'' of
                     None \<Rightarrow> innerHTML page0
                   | Some _ \<Rightarrow> (innerHTML page0)(''classificationResults'' \<mapsto>
                       classification_html (Some label) conf)),
                  console := console page0 @
                    [ConsoleLog [emoji_label @ '' Classifying voice input...''],
                     ConsoleLog [emoji_check @ '' Voice input classified:'', label]]\<rparr>) \<and>
      classifyVoiceInput ''  '' (Double 0 (- 1)) (Double 2 (- 3)) page0 =
        Normal (page0\<lparr>innerHTML :=
                  (case innerHTML page0 ''classificationResults'' of
                     None \<Rightarrow> innerHTML page0
                   | Some _ \<Rightarrow> (innerHTML page0)(''classificationResults'' \<mapsto>
                       classification_html (Some label) conf)),
                  console := console page0 @
                    [ConsoleLog [emoji_label @ '' Classifying voice input...''],
                     ConsoleLog [emoji_check @ '' Voice input classified:'', label]]\<rparr>))"
proof -
  from classifyVoiceInput_no_unclassified [OF is_random_examples(1) is_random_examples(3)]
  obtain label conf where "label \<in> set classifications" "label \<noteq> ''unclassified''"
    "80 \<le> conf" "conf \<noteq> 0"
    "\<forall>text (s :: browser).
       classifyVoiceInput text (Double 0 (- 1)) (Double 2 (- 3)) s =
         Normal (s\<lparr>innerHTML :=
                  (case innerHTML s ''classificationResults'' of
                     None \<Rightarrow> innerHTML s
                   | Some _ \<Rightarrow> (innerHTML s)(''classificationResults'' \<mapsto>
                       classification_html (Some label) conf)),
                  console := console s @
                    [ConsoleLog [emoji_label @ '' Classifying voice input...''],
                     ConsoleLog [emoji_check @ '' Voice input classified:'', label]]\<rparr>)"
    by blast
  with is_random_examples(1) is_random_examples(3) show ?thesis by blast
qed

text \<open>
  C2, as the claim states it, fails: for the empty text, which matches no phrase, and
  the draws 0 and 0 the page shows the label "Business Meeting" with confidence 80.
\<close>

theorem classifyVoiceInput_empty_text:
  "is_random (Double 0 (- 1)) \<and>
   randomClassification (Double 0 (- 1)) = Some ''Business Meeting'' \<and>
   confidence_percent (Double 0 (- 1)) = 80 \<and>
   classifyVoiceInput [] (Double 0 (- 1)) (Double 0 (- 1)) page0 =
     Normal (page0\<lparr>innerHTML := [''classificationResults'' \<mapsto>
                 classification_html (Some ''Business Meeting'') 80],
               console := [ConsoleLog [emoji_label @ '' Classifying voice input...''],
                           ConsoleLog [emoji_check @ '' Voice input classified:'',
                                       ''Business Meeting'']]\<rparr>)"
  by (simp add: is_random_examples classifyVoiceInput_state page0_def
      randomClassification_examples confidence_percent_examples js_string_def)

text \<open>
  C3, as the code has it. \<open>classifyVoiceInput\<close> never raises, on any input text and
  whatever the browser does with the assignment to \<open>innerHTML\<close>: when the assignment
  throws, the \<open>catch\<close> clause logs the error and the call still completes normally.
  It is not pure: besides drawing from \<open>Math.random()\<close> it appends two messages to the
  console and, when the page has the element \<open>classificationResults\<close>, assigns the
  markup of the label and the confidence to the \<open>innerHTML\<close> of that element. It has
  no other effect: the page changes by that assignment only, and the fields of the
  object and the rest of the state are as before.
\<close>

theorem classifyVoiceInput_effects:
  "classifyVoiceInput_on setter text r1 r2 s =
     Normal
       (case innerHTML s ''classificationResults'' of
          None \<Rightarrow>
            s\<lparr>console := console s @
              [ConsoleLog [emoji_label @ '' Classifying voice input...''],
               ConsoleLog [emoji_check @ '' Voice input classified:'',
                           js_string (randomClassification r1)]]\<rparr>
        | Some _ \<Rightarrow>
            (case setter ''classificationResults''
                    (classification_html (randomClassification r1) (confidence_percent r2))
                    (innerHTML s) of
               Inr page \<Rightarrow>
                 s\<lparr>innerHTML := page,
                   console := console s @
                     [ConsoleLog [emoji_label @ '' Classifying voice input...''],
                      ConsoleLog [emoji_check @ '' Voice input classified:'',
                                  js_string (randomClassification r1)]]\<rparr>
             | Inl error \<Rightarrow>
                 s\<lparr>console := console s @
                   [ConsoleLog [emoji_label @ '' Classifying voice input...''],
                    ConsoleError [emoji_cross @ '' Error classifying voice input:'', error]]\<rparr>)) \<and>
   is_Normal (classifyVoiceInput_on setter text r1 r2 s) \<and>
   isRecording (state_of (classifyVoiceInput_on setter text r1 r2 s)) = isRecording s \<and>
   audioChunks (state_of (classifyVoiceInput_on setter text r1 r2 s)) = audioChunks s \<and>
   browser.more (state_of (classifyVoiceInput_on setter text r1 r2 s)) = browser.more s \<and>
   length (console (state_of (classifyVoiceInput_on setter text r1 r2 s)))
     = length (console s) + 2"
  by (simp add: classifyVoiceInput_on_def classifyVoiceInput_try_def try_catch_def
      console_log_def console_error_def Let_def split: option.split sum.split)

text \<open>
  On an XML page the assignment throws: the element keeps its content, and the console
  holds the first message and the error instead of the second message.
\<close>

lemma classifyVoiceInput_on_xml_page:
  "classifyVoiceInput_on xml_setter ''hello'' (Double 0 (- 1)) (Double 0 (- 1)) page0 =
     Normal (page0\<lparr>console :=
       [ConsoleLog [emoji_label @ '' Classifying voice input...''],
        ConsoleError [emoji_cross @ '' Error classifying voice input:'', ''SyntaxError'']]\<rparr>)"
  by (simp add: classifyVoiceInput_on_def classifyVoiceInput_try_def try_catch_def
      console_log_def console_error_def xml_setter_def page0_def Let_def)

text \<open>
  C3, as the claim states it, fails: a call on a page whose element
  \<open>classificationResults\<close> is empty leaves the element filled and the console longer.
\<close>

theorem classifyVoiceInput_not_pure:
  "is_Normal (classifyVoiceInput ''hello'' (Double 0 (- 1)) (Double 0 (- 1)) page0) \<and>
   innerHTML page0 ''classificationResults'' = Some [] \<and>
   innerHTML (state_of (classifyVoiceInput ''hello'' (Double 0 (- 1)) (Double 0 (- 1)) page0))
       ''classificationResults''
     = Some (classification_html (Some ''Business Meeting'') 80) \<and>
   classification_html (Some ''Business Meeting'') 80 \<noteq> [] \<and>
   console page0 = [] \<and>
   length (console (state_of
       (classifyVoiceInput ''hello'' (Double 0 (- 1)) (Double 0 (- 1)) page0))) = 2"
  by (simp add: classifyVoiceInput_state page0_def
      randomClassification_examples confidence_percent_examples classification_html_def)

section \<open>Agent Router\<close>

lemma set_insert_ranked: "set (insert_ranked x xs) = insert x (set xs)"
  by (induction xs) auto

lemma set_rank: "set (rank xs) = set xs"
  by (induction xs) (simp_all add: set_insert_ranked)

lemma qualifying_member:
  assumes "(c', a, sc) \<in> set (qualifying cls reg c)"
  shows "c' = c \<and> a \<in> set reg \<and> capable c a \<and> sc = candidate_score cls c a \<and> threshold c < sc"
  using assms by (auto simp add: qualifying_def candidates_def)

lemma selected_member:
  assumes "x \<in> set (selected n cls reg)"
  shows "\<exists>c \<in> set (primary cls # secondary cls). x \<in> set (qualifying cls reg c)"
proof -
  from assms have "x \<in> set (rank (concat (map (qualifying cls reg) (primary cls # secondary cls))))"
    unfolding selected_def by (rule in_set_takeD)
  then show ?thesis by (simp only: set_rank set_concat set_map) blast
qed

lemma top_score_bound:
  assumes "top_score xs = Some t" and "(c, a, sc) \<in> set xs"
  shows "sc \<le> t"
  using assms
proof (induction xs arbitrary: t)
  case Nil
  then show ?case by simp
next
  case (Cons x xs)
  obtain c' a' sc' where x: "x = (c', a', sc')" by (cases x)
  show ?case
  proof (cases "top_score xs")
    case None
    then have "xs = []" by (cases xs) (auto split: option.splits)
    with Cons.prems x None show ?thesis by simp
  next
    case (Some u)
    with Cons.prems x have t: "t = max sc' u" by simp
    from Cons.prems(2) x consider "sc = sc'" | "(c, a, sc) \<in> set xs" by auto
    then show ?thesis
    proof cases
      case 1
      with t show ?thesis by simp
    next
      case 2
      from Cons.IH [OF Some 2] t show ?thesis by simp
    qed
  qed
qed

text \<open>
  C4. For every classification result and every agent registry, every agent in the
  RoutingDecision returned by \<open>route\<close> is an agent of the registry whose capability tags
  include all required capability tags of the category it was assigned for (the primary
  category or one of the secondary categories of the result), with that category's score
  as its assignment confidence.
\<close>

theorem route_capabilities:
  "\<forall>(i, conf) \<in> set (assignments (route cls reg)).
     \<exists>c \<in> set (primary cls # secondary cls). \<exists>a \<in> set reg.
       agent_id a = i \<and> required c \<subseteq> capabilities a \<and> conf = candidate_score cls c a"
proof (clarify)
  fix i conf
  assume "(i, conf) \<in> set (assignments (route cls reg))"
  then obtain c' a sc where sel: "(c', a, sc) \<in> set (selected 3 cls reg)"
    and i: "i = agent_id a" and conf: "conf = sc"
    by (auto simp add: route_def route_fanout_def Let_def)
  from selected_member [OF sel] obtain c
    where c: "c \<in> set (primary cls # secondary cls)" and q: "(c', a, sc) \<in> set (qualifying cls reg c)"
    by blast
  from qualifying_member [OF q] have "a \<in> set reg" "capable c a" "sc = candidate_score cls c a"
    by simp_all
  with c i conf show "\<exists>c \<in> set (primary cls # secondary cls). \<exists>a \<in> set reg.
       agent_id a = i \<and> required c \<subseteq> capabilities a \<and> conf = candidate_score cls c a"
    unfolding capable_def by blast
qed

lemma route_confident:
  "route confident_result [agent_A, agent_B] =
     \<lparr>decision_request_id = 7, assignments = [(1, 18 / 25)],
      routing_confidence = 18 / 25, escalated = False\<rparr>"
  by (simp add: route_def route_fanout_def selected_def qualifying_def candidates_def
      capable_def candidate_score_def confident_result_def product_search_def
      agent_A_def agent_B_def)

theorem route_capabilities_witness:
  "(1, 18 / 25) \<in> set (assignments (route confident_result [agent_A, agent_B])) \<and>
   (\<exists>c \<in> set (primary confident_result # secondary confident_result).
      \<exists>a \<in> set [agent_A, agent_B].
        agent_id a = 1 \<and> required c \<subseteq> capabilities a \<and>
        18 / 25 = candidate_score confident_result c a)"
proof -
  have m: "(1, 18 / 25) \<in> set (assignments (route confident_result [agent_A, agent_B]))"
    by (simp add: route_confident)
  from route_capabilities [of confident_result "[agent_A, agent_B]"] m
  have "\<exists>c \<in> set (primary confident_result # secondary confident_result).
      \<exists>a \<in> set [agent_A, agent_B].
        agent_id a = 1 \<and> required c \<subseteq> capabilities a \<and>
        18 / 25 = candidate_score confident_result c a"
    by fast
  with m show ?thesis by simp
qed

text \<open>
  C5. Whenever the primary category's top candidate score is below the category's
  confidence threshold and no secondary category yields a qualifying candidate, \<open>route\<close>
  returns a RoutingDecision with the escalation flag set and an empty agent list;
  \<open>route\<close> is total, so the decision is its result and no error is signalled.
\<close>

theorem route_escalates:
  assumes "top_score (candidates cls reg (primary cls)) = Some t"
    and "t < threshold (primary cls)"
    and "\<forall>c \<in> set (secondary cls). qualifying cls reg c = []"
  shows "escalated (route cls reg) \<and> assignments (route cls reg) = [] \<and>
         decision_request_id (route cls reg) = request_id cls"
proof -
  have "qualifying cls reg (primary cls) = []"
  proof (rule ccontr)
    assume "qualifying cls reg (primary cls) \<noteq> []"
    then obtain c a sc where q: "(c, a, sc) \<in> set (qualifying cls reg (primary cls))"
      by (metis list.set_intros(1) neq_Nil_conv prod_cases3)
    then have "(c, a, sc) \<in> set (candidates cls reg (primary cls))"
      by (simp add: qualifying_def)
    from top_score_bound [OF assms(1) this] have "sc \<le> t" .
    moreover from qualifying_member [OF q] have "threshold (primary cls) < sc" by simp
    ultimately show False using assms(2) by simp
  qed
  with assms(3) have "concat (map (qualifying cls reg) (primary cls # secondary cls)) = []"
    by simp
  then have "selected 3 cls reg = []" by (simp only: selected_def rank.simps take_Nil)
  then show ?thesis by (simp add: route_def route_fanout_def)
qed

lemma doubtful_top_score:
  "top_score (candidates doubtful_result [agent_A, agent_B] (primary doubtful_result)) = Some (9 / 20)"
  by (simp add: candidates_def capable_def candidate_score_def doubtful_result_def
      product_search_def agent_A_def agent_B_def)

lemma doubtful_secondary:
  "\<forall>c \<in> set (secondary doubtful_result). qualifying doubtful_result [agent_A, agent_B] c = []"
  by (simp add: qualifying_def candidates_def capable_def candidate_score_def
      doubtful_result_def translation_def agent_A_def agent_B_def)

theorem route_escalates_witness:
  "top_score (candidates doubtful_result [agent_A, agent_B] (primary doubtful_result)) = Some (9 / 20) \<and>
   9 / 20 < threshold (primary doubtful_result) \<and>
   qualifying doubtful_result [agent_A, agent_B] translation = [] \<and>
   escalated (route doubtful_result [agent_A, agent_B]) \<and>
   assignments (route doubtful_result [agent_A, agent_B]) = [] \<and>
   decision_request_id (route doubtful_result [agent_A, agent_B]) = request_id doubtful_result"
proof -
  have t: "9 / 20 < threshold (primary doubtful_result)"
    by (simp add: doubtful_result_def product_search_def)
  have s: "qualifying doubtful_result [agent_A, agent_B] translation = []"
    using doubtful_secondary by (simp add: doubtful_result_def)
  from route_escalates [OF doubtful_top_score t doubtful_secondary] doubtful_top_score t s
  show ?thesis by simp
qed

section \<open>Adaptive Loop\<close>

lemma bound_delta_abs:
  assumes "0 \<le> cycle_bound cfg"
  shows "\<bar>bound_delta cfg w d\<bar> \<le> cycle_bound cfg * \<bar>w\<bar>"
proof -
  have "0 \<le> cycle_bound cfg * \<bar>w\<bar>" using assms by simp
  then show ?thesis unfolding bound_delta_def by (simp add: max_def min_def abs_if)
qed

lemma find_agent_by_id:
  assumes "distinct (map agent_id ags)" and "a \<in> set ags"
  shows "find (\<lambda>b. agent_id b = agent_id a) ags = Some a"
  using assms
proof (induction ags)
  case Nil
  then show ?case by simp
next
  case (Cons b ags)
  show ?case
  proof (cases "b = a")
    case True
    then show ?thesis by simp
  next
    case False
    with Cons.prems have a: "a \<in> set ags" by simp
    with Cons.prems(1) have "agent_id b \<noteq> agent_id a" by auto
    with Cons.IH [OF _ a] Cons.prems(1) show ?thesis by simp
  qed
qed

lemma act_bound:
  assumes "0 \<le> cycle_bound cfg" and "distinct (map agent_id ags)" and "a \<in> set ags"
    and "act cfg mem w ags (c, agent_id a) = Some d"
  shows "\<bar>d\<bar> \<le> cycle_bound cfg * \<bar>routingWeight a c\<bar>"
proof -
  from assms(4) obtain d0 where "d = bound_delta cfg (routingWeight a c) d0"
    by (auto simp add: act_def find_agent_by_id [OF assms(2,3)] split: option.splits)
  then show ?thesis by (simp add: bound_delta_abs [OF assms(1)])
qed

lemma apply_agent_id: "agent_id (apply_agent upd a) = agent_id a"
  by (simp add: apply_agent_def)

lemma learning_update_weight:
  assumes "0 \<le> cycle_bound cfg" and "distinct (map agent_id (agents st))" and "a \<in> set (agents st)"
  shows "\<bar>routingWeight (apply_agent (learning_update cfg mem w st) a) c - routingWeight a c\<bar>
           \<le> cycle_bound cfg * \<bar>routingWeight a c\<bar>"
proof (cases "act cfg mem w (agents st) (c, agent_id a)")
  case None
  then show ?thesis using assms(1) by (simp add: apply_agent_def learning_update_def)
next
  case (Some d)
  from act_bound [OF assms Some] Some show ?thesis
    by (simp add: apply_agent_def learning_update_def)
qed

lemma agents_tables_after:
  "agents (tables_after cfg mem w st) = agents st \<or>
   agents (tables_after cfg mem w st) = map (apply_agent (learning_update cfg mem w st)) (agents st)"
  by (simp add: tables_after_def sair_cycle_def apply_update_def Let_def split: option.split)

text \<open>
  C6. For every outcome window and every (category, agent) pair, one Adaptive Loop
  cycle changes the routing weight by no more than the configured per-cycle bound,
  taken relative to the weight before the cycle (a bound of 0.1 is 10%). The bound is
  not negative and the agents of the registry have distinct identifiers; the agent at a
  position of the registry is the same agent before and after the cycle.
\<close>

theorem cycle_weight_change_bounded:
  assumes "0 \<le> cycle_bound cfg" and "distinct (map agent_id (agents st))"
    and "i < length (agents st)"
  shows "length (agents (tables_after cfg mem w st)) = length (agents st) \<and>
         agent_id (agents (tables_after cfg mem w st) ! i) = agent_id (agents st ! i) \<and>
         \<bar>routingWeight (agents (tables_after cfg mem w st) ! i) c
            - routingWeight (agents st ! i) c\<bar>
           \<le> cycle_bound cfg * \<bar>routingWeight (agents st ! i) c\<bar>"
proof -
  have a: "agents st ! i \<in> set (agents st)" using assms(3) by simp
  from agents_tables_after [of cfg mem w st] show ?thesis
  proof
    assume "agents (tables_after cfg mem w st) = agents st"
    then show ?thesis using assms(1) by simp
  next
    assume "agents (tables_after cfg mem w st)
              = map (apply_agent (learning_update cfg mem w st)) (agents st)"
    then show ?thesis
      using assms(3) learning_update_weight [OF assms(1,2) a, of mem w c]
      by (simp add: apply_agent_id)
  qed
qed

lemma tables_after_window0:
  "routingWeight (agents (tables_after config0 memory0 window0 tables0) ! 0) 1 = 9 / 10"
  by (simp add: tables_after_def sair_cycle_def well_formed_record_def window0_def
      apply_update_def tables0_def apply_agent_def learning_update_def act_def agent_A_def
      agent_B_def mean_satisfaction_def satisfaction_samples_def observed_def mean_of_def
      confident_result_def product_search_def proposal_def bound_delta_def config0_def
      memory0_def Let_def)

theorem cycle_weight_change_bounded_witness:
  "0 \<le> cycle_bound config0 \<and> distinct (map agent_id (agents tables0)) \<and>
   0 < length (agents tables0) \<and>
   routingWeight (agents tables0 ! 0) 1 = 1 \<and>
   routingWeight (agents (tables_after config0 memory0 window0 tables0) ! 0) 1 = 9 / 10 \<and>
   \<bar>routingWeight (agents (tables_after config0 memory0 window0 tables0) ! 0) 1
      - routingWeight (agents tables0 ! 0) 1\<bar>
     \<le> cycle_bound config0 * \<bar>routingWeight (agents tables0 ! 0) 1\<bar>"
proof -
  have b: "0 \<le> cycle_bound config0" by (simp add: config0_def)
  have d: "distinct (map agent_id (agents tables0))"
    by (simp add: tables0_def agent_A_def agent_B_def)
  have l: "0 < length (agents tables0)" by (simp add: tables0_def)
  have w: "routingWeight (agents tables0 ! 0) 1 = 1" by (simp add: tables0_def agent_A_def)
  from cycle_weight_change_bounded [OF b d l, of memory0 window0 1] b d l w tables_after_window0
  show ?thesis by simp
qed

text \<open>
  C7. When the outcome window is empty, an Adaptive Loop cycle completes without fault
  and its LearningUpdate is the no-op update: the Category Model and the Agent registry
  after the cycle are the ones before it, so every phrase weight, routing weight and
  threshold is unchanged.
\<close>

theorem empty_window_no_op:
  "sair_cycle cfg mem [] st = Inr (no_update, st, mem\<lparr>adjusted := []\<rparr>) \<and>
   tables_after cfg mem [] st = st"
proof -
  have u: "learning_update cfg mem [] st = no_update"
    by (auto simp add: learning_update_def no_update_def refine_phrases_def act_def
        mean_satisfaction_def satisfaction_samples_def mean_of_def fun_eq_iff
        split: option.splits)
  have "map (apply_agent no_update) (agents st) = agents st"
    by (simp add: apply_agent_def no_update_def map_idI)
  moreover have "map (apply_category no_update (agents st)) (categories st) = categories st"
    by (simp add: apply_category_def no_update_def map_idI List.map_filter_def
        case_prod_unfold)
  ultimately have a: "apply_update no_update st = st" by (simp add: apply_update_def)
  have n: "concat (map (\<lambda>cat. concat (map (\<lambda>a.
             case routing_adjust no_update (cat_id cat, agent_id a) of
               None \<Rightarrow> []
             | Some x \<Rightarrow> [(cat_id cat, agent_id a)]) (agents st))) (categories st)) = []"
    by (simp add: no_update_def)
  have i: "interpret_phase cfg mem [] [] = mem\<lparr>adjusted := []\<rparr>"
    by (cases mem; cases "previous mem")
      (simp_all add: interpret_phase_def aggregate_satisfaction_def mean_of_def)
  have "sair_cycle cfg mem [] st = Inr (no_update, st, mem\<lparr>adjusted := []\<rparr>)"
    by (simp add: sair_cycle_def u a n i Let_def)
  then show ?thesis by (simp add: tables_after_def)
qed

end
